theory Spec2Isabelle
  imports Main "HOL-Library.Word"
begin

section \<open>Go standard library functions called by app.go\<close>

text \<open>
  Strings are byte lists, as Go strings are. Only the library behaviour that app.go
  relies on is modelled: \<open>strings.Split\<close> with a one-byte separator,
  \<open>strconv.ParseInt(s, 10, 64)\<close>, \<open>strconv.Atoi\<close>, \<open>strconv.FormatInt(n, 10)\<close>
  (which is also what \<open>%d\<close> prints) and \<open>filepath.Join\<close> on a Unix host.
\<close>

fun Split :: "string \<Rightarrow> char \<Rightarrow> string list" where
  "Split [] sep = [[]]"
| "Split (c # cs) sep =
     (if c = sep then [] # Split cs sep
      else (case Split cs sep of [] \<Rightarrow> [[c]] | p # ps \<Rightarrow> (c # p) # ps))"

definition isDigit :: "char \<Rightarrow> bool" where
  "isDigit c = (48 \<le> (of_char c :: int) \<and> (of_char c :: int) \<le> 57)"

fun digitsVal :: "int \<Rightarrow> string \<Rightarrow> int option" where
  "digitsVal n [] = Some n"
| "digitsVal n (c # cs) =
     (if isDigit c then digitsVal (n * 10 + (of_char c - 48)) cs else None)"

definition ParseUint :: "string \<Rightarrow> int option" where
  "ParseUint s =
     (if s = [] then None
      else (case digitsVal 0 s of
              None \<Rightarrow> None
            | Some n \<Rightarrow> if n > 18446744073709551615 then None else Some n))"

definition ParseInt :: "string \<Rightarrow> int option" where
  "ParseInt s =
     (case s of
        [] \<Rightarrow> None
      | c # cs \<Rightarrow>
          (let neg = (c = CHR ''-'');
               t = (if c = CHR ''+'' \<or> c = CHR ''-'' then cs else s)
           in (case ParseUint t of
                 None \<Rightarrow> None
               | Some un \<Rightarrow>
                   if \<not> neg \<and> un \<ge> 9223372036854775808 then None
                   else if neg \<and> un > 9223372036854775808 then None
                   else Some (if neg then - un else un))))"

definition Atoi :: "string \<Rightarrow> int option" where
  "Atoi s = ParseInt s"

function digits10 :: "int \<Rightarrow> string" where
  "digits10 n =
     (if n < 10 then [char_of (48 + n)]
      else digits10 (n div 10) @ [char_of (48 + n mod 10)])"
  by pat_completeness auto
termination
  by (relation "measure nat") auto

definition FormatInt :: "int \<Rightarrow> string" where
  "FormatInt i = (if i < 0 then CHR ''-'' # digits10 (- i) else digits10 i)"

text \<open>Go's \<open>int\<close> is 64 bits wide on the supported hosts; a product wraps around.\<close>

definition mul64 :: "int \<Rightarrow> int \<Rightarrow> int" where
  "mul64 a b = sint ((word_of_int a :: 64 word) * word_of_int b)"

text \<open>
  \<open>filepath.Clean\<close>: the path is cut at the separators, empty and \<open>.\<close> elements are
  dropped, an inner \<open>..\<close> removes the element before it, a \<open>..\<close> at the start of a
  rooted path is dropped, and the empty result is \<open>.\<close>.
\<close>

fun cleanElems :: "bool \<Rightarrow> string list \<Rightarrow> string list \<Rightarrow> string list" where
  "cleanElems rooted stack [] = rev stack"
| "cleanElems rooted stack (e # es) =
     (if e = [] \<or> e = ''.'' then cleanElems rooted stack es
      else if e = ''..'' then
        (case stack of
           [] \<Rightarrow> if rooted then cleanElems rooted [] es else cleanElems rooted [e] es
         | t # ts \<Rightarrow>
             if t = ''..'' then cleanElems rooted (e # stack) es
             else cleanElems rooted ts es)
      else cleanElems rooted (e # stack) es)"

fun joinSep :: "string list \<Rightarrow> string" where
  "joinSep [] = []"
| "joinSep [e] = e"
| "joinSep (e # es) = e @ CHR ''/'' # joinSep es"

definition Clean :: "string \<Rightarrow> string" where
  "Clean p =
     (let rooted = (case p of [] \<Rightarrow> False | c # _ \<Rightarrow> c = CHR ''/'');
          out = (if rooted then ''/'' else []) @ joinSep (cleanElems rooted [] (Split p (CHR ''/'')))
      in if out = [] then ''.'' else out)"

fun filepath_Join :: "string list \<Rightarrow> string" where
  "filepath_Join [] = []"
| "filepath_Join (e # es) = (if e = [] then filepath_Join es else Clean (joinSep (e # es)))"

text \<open>
  Instants are integers counting nanoseconds; \<open>Time.After\<close> and \<open>Time.Before\<close> are
  the strict orders and \<open>Time.Add\<close> is addition.
\<close>

definition Minute :: int where
  "Minute = 60000000000"

definition After :: "int \<Rightarrow> int \<Rightarrow> bool" where
  "After t u = (u < t)"

definition Before :: "int \<Rightarrow> int \<Rightarrow> bool" where
  "Before t u = (t < u)"


section \<open>Data model\<close>

text \<open>The channels table stores three of the fields of the Channel struct.\<close>

record Channel =
  GuideNumber :: string
  GuideName :: string
  URL :: string

record Recording =
  ID :: int
  ChannelID :: string
  Date :: string
  StartTime :: string
  Duration :: int
  Status :: string

record RecordingRequest =
  reqChannelID :: string
  reqDate :: string
  reqStartTime :: string
  reqDuration :: int

text \<open>
  The SQLite database: the rows of the two tables in rowid order, and the counter that
  AUTOINCREMENT keeps in \<open>sqlite_sequence\<close> (the largest id ever handed out).
\<close>

record DB =
  channels :: "Channel list"
  recordings :: "Recording list"
  seq :: int

text \<open>What \<open>os.Stat\<close> and \<open>os.Open\<close> find at a path.\<close>

datatype fsnode = Absent | StatError | OpenError | File string

text \<open>
  Everything outside the process that a call depends on: the environment variable, the
  file system, \<open>time.ParseInLocation("2006-01-02 15:04", _, loc)\<close> for the location
  the process uses, and whether a database call, a directory or log file creation, or
  the ffmpeg run returns an error.
\<close>

record Env =
  STORAGE_DIR :: string
  fs :: "string \<Rightarrow> fsnode"
  ParseInLocation :: "string \<Rightarrow> int option"
  queryFails :: bool
  execFails :: bool
  lastIdFails :: bool
  mkdirFails :: bool
  createFails :: bool
  runFails :: bool

text \<open>
  What a handler writes after the header: raw bytes, the text of a Go error value (not
  fixed by app.go), or the JSON encoding of an error message or of a Recording.
\<close>

datatype Body =
    Bytes string
  | ErrorText
  | JsonError string
  | JsonRecording Recording
  | NoBody

record Response =
  statusCode :: nat
  header :: "(string \<times> string) list"
  body :: Body

text \<open>\<open>http.Error\<close>: a plain-text body, the message followed by a newline.\<close>

definition httpError :: "string \<Rightarrow> nat \<Rightarrow> Response" where
  "httpError msg c =
     \<lparr>statusCode = c,
      header = [(''Content-Type'', ''text/plain; charset=utf-8''),
                (''X-Content-Type-Options'', ''nosniff'')],
      body = Bytes (msg @ [CHR 0x0A])\<rparr>"

text \<open>\<open>http.Error(w, err.Error(), c)\<close> with the text of a driver or system error.\<close>

definition errError :: "nat \<Rightarrow> Response" where
  "errError c =
     \<lparr>statusCode = c,
      header = [(''Content-Type'', ''text/plain; charset=utf-8''),
                (''X-Content-Type-Options'', ''nosniff'')],
      body = ErrorText\<rparr>"

definition jsonError :: "string \<Rightarrow> nat \<Rightarrow> Response" where
  "jsonError msg c =
     \<lparr>statusCode = c, header = [(''Content-Type'', ''application/json'')],
      body = JsonError msg\<rparr>"

definition findRecording :: "int \<Rightarrow> DB \<Rightarrow> Recording option" where
  "findRecording i d = find (\<lambda>r. ID r = i) (recordings d)"

definition findChannel :: "string \<Rightarrow> DB \<Rightarrow> Channel option" where
  "findChannel g d = find (\<lambda>c. GuideNumber c = g) (channels d)"

definition pendingRecordings :: "DB \<Rightarrow> Recording list" where
  "pendingRecordings d = filter (\<lambda>r. Status r = ''pending'') (recordings d)"

definition setStatus :: "int \<Rightarrow> string \<Rightarrow> DB \<Rightarrow> DB" where
  "setStatus i st d =
     d\<lparr>recordings := map (\<lambda>r. if ID r = i then r\<lparr>Status := st\<rparr> else r) (recordings d)\<rparr>"

definition fileName :: "string \<Rightarrow> string \<Rightarrow> string \<Rightarrow> string \<Rightarrow> string" where
  "fileName d t n g = d @ ''-'' @ t @ ''-'' @ n @ ''-'' @ g @ ''.mp4''"


fun Base :: "string \<Rightarrow> string" where
  "Base p =
     (if p = [] then ''.''
      else (let q = rev (dropWhile (\<lambda>c. c = CHR ''/'') (rev p));
                b = rev (takeWhile (\<lambda>c. c \<noteq> CHR ''/'') (rev q))
            in if b = [] then ''/'' else b))"


section \<open>The scheduler (loadRecordings, startRecordingScheduler)\<close>

text \<open>
  Every operation takes the database and returns it, since \<open>db\<close> is a global of the
  program. \<open>loadRecordings\<close> runs before the scheduler goroutine exists, so a send on
  the full \<open>recordingCh\<close> (capacity 100) never returns: that is \<open>None\<close>. The
  clock is read once for each row whose start time parses; \<open>clock k\<close> is the
  \<open>k\<close>-th reading.
\<close>

fun loadLoop ::
  "Env \<Rightarrow> (nat \<Rightarrow> int) \<Rightarrow> nat \<Rightarrow> Recording list \<Rightarrow> Recording list \<Rightarrow> Recording list option" where
  "loadLoop env clock k [] ch = Some ch"
| "loadLoop env clock k (r # rs) ch =
     (case ParseInLocation env (Date r @ '' '' @ StartTime r) of
        None \<Rightarrow> loadLoop env clock k rs ch
      | Some startTime \<Rightarrow>
          (let endTime = startTime + mul64 (Duration r) Minute;
               now = clock k
           in if After now startTime \<and> Before now endTime then loadLoop env clock (Suc k) rs ch
              else if Before now startTime then
                (if length ch < 100 then loadLoop env clock (Suc k) rs (ch @ [r]) else None)
              else loadLoop env clock (Suc k) rs ch))"

definition loadRecordings ::
  "Env \<Rightarrow> (nat \<Rightarrow> int) \<Rightarrow> DB \<Rightarrow> Recording list \<Rightarrow> DB \<times> Recording list option" where
  "loadRecordings env clock d ch =
     (if queryFails env then (d, Some ch)
      else (d, loadLoop env clock 0 (pendingRecordings d) ch))"

text \<open>
  One tick of \<open>startRecordingScheduler\<close>: the rows selected with status pending are
  walked in order, and the result lists the rows for which \<open>go startRecording(r)\<close>
  is executed.
\<close>

fun dueRecordings :: "Env \<Rightarrow> int \<Rightarrow> Recording list \<Rightarrow> Recording list" where
  "dueRecordings env now [] = []"
| "dueRecordings env now (r # rs) =
     (case ParseInLocation env (Date r @ '' '' @ StartTime r) of
        None \<Rightarrow> dueRecordings env now rs
      | Some startTime \<Rightarrow>
          if After now startTime \<and> Before now (startTime + Minute)
          then r # dueRecordings env now rs
          else dueRecordings env now rs)"

definition schedulerTick :: "Env \<Rightarrow> int \<Rightarrow> DB \<Rightarrow> DB \<times> Recording list" where
  "schedulerTick env now d =
     (if queryFails env then (d, [])
      else (d, dueRecordings env now (pendingRecordings d)))"


section \<open>The capture worker (startRecording)\<close>

text \<open>The output file name of the worker (lines 266 and 267).\<close>

definition workerOutputFile :: "Env \<Rightarrow> Recording \<Rightarrow> Channel \<Rightarrow> string" where
  "workerOutputFile env r ch =
     filepath_Join [STORAGE_DIR env,
       fileName (Date r) (StartTime r) (GuideName ch) (GuideNumber ch)]"

text \<open>
  How a run of \<open>startRecording\<close> ends; the log file path and the argument vector of
  the ffmpeg command are kept where the code got that far.
\<close>

datatype Capture =
    NoChannel
  | MkdirFailed
  | LogFileFailed string
  | RunFailed string "string list"
  | RunOK string "string list"

definition startRecording :: "Env \<Rightarrow> DB \<Rightarrow> Recording \<Rightarrow> DB \<times> Capture" where
  "startRecording env d r =
     (if queryFails env then (d, NoChannel)
      else (case findChannel (ChannelID r) d of
        None \<Rightarrow> (d, NoChannel)
      | Some ch \<Rightarrow>
          if mkdirFails env then (d, MkdirFailed)
          else
            (let outputFile = workerOutputFile env r ch;
                 logFile = filepath_Join [''/tmp'',
                   ''ffmpeg-'' @ Date r @ ''-'' @ StartTime r @ ''.log'']
             in if createFails env then (d, LogFileFailed logFile)
                else
                  (let durationSeconds = mul64 (Duration r) 60;
                       cmd = [''ffmpeg'', ''-i'', URL ch, ''-t'', FormatInt durationSeconds,
                              ''-c'', ''copy'', outputFile]
                   in if runFails env then (d, RunFailed logFile cmd)
                      else if execFails env then (d, RunOK logFile cmd)
                      else (setStatus (ID r) ''completed'' d, RunOK logFile cmd)))))"


section \<open>The media server (getRecordingFile)\<close>

text \<open>The range block of the handler (lines 473 to 518), for a non-empty header.\<close>

datatype RangeResult = BadRequest | NotSatisfiable | Partial int int

definition parseRange :: "string \<Rightarrow> int \<Rightarrow> RangeResult" where
  "parseRange rangeHeader fileSize =
     (case Split rangeHeader (CHR ''='') of
        [p0, p1] \<Rightarrow>
          if p0 \<noteq> ''bytes'' then BadRequest
          else
            (let rangeValues = Split p1 (CHR ''-'')
             in if length rangeValues < 1 \<or> length rangeValues > 2 then BadRequest
                else (case ParseInt (rangeValues ! 0) of
                  None \<Rightarrow> BadRequest
                | Some start \<Rightarrow>
                    (case (if length rangeValues = 2 \<and> rangeValues ! 1 \<noteq> []
                           then ParseInt (rangeValues ! 1) else Some (fileSize - 1)) of
                       None \<Rightarrow> BadRequest
                     | Some end \<Rightarrow>
                         if start < 0 \<or> end \<ge> fileSize \<or> start > end then NotSatisfiable
                         else Partial start end)))
      | _ \<Rightarrow> BadRequest)"

definition serveContent :: "string \<Rightarrow> string \<Rightarrow> string \<Rightarrow> Response" where
  "serveContent filePath content rangeHeader =
     (let fileSize = int (length content)
      in if rangeHeader \<noteq> [] then
           (case parseRange rangeHeader fileSize of
              BadRequest \<Rightarrow> httpError ''Invalid range header'' 400
            | NotSatisfiable \<Rightarrow> httpError ''Invalid range'' 416
            | Partial start end \<Rightarrow>
                \<lparr>statusCode = 206,
                 header = [(''Content-Range'',
                            ''bytes '' @ FormatInt start @ ''-'' @ FormatInt end @ ''/''
                              @ FormatInt fileSize),
                           (''Content-Length'', FormatInt (end - start + 1)),
                           (''Accept-Ranges'', ''bytes'')],
                 body = Bytes (take (nat (end - start + 1)) (drop (nat start) content))\<rparr>)
         else
           \<lparr>statusCode = 200,
            header = [(''Content-Disposition'', ''attachment; filename='' @ Base filePath),
                      (''Content-Type'', ''video/mp4''),
                      (''Content-Length'', FormatInt fileSize),
                      (''Accept-Ranges'', ''bytes'')],
            body = Bytes content\<rparr>)"

text \<open>The file path of the handler (lines 447 and 448).\<close>

definition serverFilePath :: "Env \<Rightarrow> Recording \<Rightarrow> string \<Rightarrow> string" where
  "serverFilePath env recording channelName =
     filepath_Join [STORAGE_DIR env,
       fileName (Date recording) (StartTime recording) channelName (ChannelID recording)]"

text \<open>
  The query is a LEFT JOIN: a recording whose channel row is missing comes back with a
  NULL \<open>guide_name\<close>, and \<open>Scan\<close> into the Go string \<open>channelName\<close> returns an
  error that is not \<open>sql.ErrNoRows\<close>.
\<close>

definition getRecordingFile :: "Env \<Rightarrow> DB \<Rightarrow> string \<Rightarrow> string \<Rightarrow> DB \<times> Response" where
  "getRecordingFile env d idStr rangeHeader =
     (case Atoi idStr of
        None \<Rightarrow> (d, httpError ''Invalid recording ID'' 400)
      | Some i \<Rightarrow>
          if queryFails env then (d, errError 500)
          else (case findRecording i d of
            None \<Rightarrow> (d, httpError ''Recording not found'' 404)
          | Some recording \<Rightarrow>
              (case findChannel (ChannelID recording) d of
                 None \<Rightarrow> (d, errError 500)
               | Some c \<Rightarrow>
                   (let channelName = GuideName c
                    in if Status recording \<noteq> ''completed''
                       then (d, httpError ''Recording not completed'' 403)
                       else
                         (let filePath = serverFilePath env recording channelName
                          in (case fs env filePath of
                                Absent \<Rightarrow> (d, httpError ''Recording file not found'' 404)
                              | StatError \<Rightarrow> (d, errError 500)
                              | OpenError \<Rightarrow> (d, errError 500)
                              | File content \<Rightarrow>
                                  (d, serveContent filePath content rangeHeader)))))))"


section \<open>Creating and deleting recordings, loading channels\<close>

text \<open>
  AUTOINCREMENT hands out one more than the largest id ever used. The decoded request is
  \<open>None\<close> when the JSON body does not decode. The send on \<open>recordingCh\<close> that
  follows the insert carries no state: the scheduler receives the value and drops it.
\<close>

definition nextId :: "DB \<Rightarrow> int" where
  "nextId d = max (seq d) (foldr max (map ID (recordings d)) 0) + 1"

definition createRecording ::
  "Env \<Rightarrow> DB \<Rightarrow> string \<Rightarrow> RecordingRequest option \<Rightarrow> DB \<times> Response" where
  "createRecording env d method decoded =
     (if method \<noteq> ''POST'' then (d, httpError ''Method not allowed'' 405)
      else (case decoded of
        None \<Rightarrow> (d, errError 400)
      | Some req \<Rightarrow>
          if reqDuration req \<le> 0 then (d, jsonError ''Duration must be positive'' 400)
          else if queryFails env then (d, errError 500)
          else if findChannel (reqChannelID req) d = None
            then (d, jsonError ''Channel not found'' 404)
          else
            (let recording = \<lparr>ID = 0, ChannelID = reqChannelID req, Date = reqDate req,
                               StartTime = reqStartTime req, Duration = reqDuration req,
                               Status = ''pending''\<rparr>
             in if execFails env then (d, jsonError ''Failed to create recording'' 500)
                else
                  (let i = nextId d;
                       d' = d\<lparr>recordings := recordings d @ [recording\<lparr>ID := i\<rparr>], seq := i\<rparr>
                   in if lastIdFails env
                      then (d', jsonError ''Failed to get recording ID'' 500)
                      else (d', \<lparr>statusCode = 201,
                                 header = [(''Content-Type'', ''application/json'')],
                                 body = JsonRecording (recording\<lparr>ID := i\<rparr>)\<rparr>)))))"

definition deleteRecording :: "Env \<Rightarrow> DB \<Rightarrow> string \<Rightarrow> string \<Rightarrow> DB \<times> Response" where
  "deleteRecording env d method idStr =
     (if method \<noteq> ''DELETE'' then (d, httpError ''Method not allowed'' 405)
      else (case Atoi idStr of
        None \<Rightarrow> (d, httpError ''Invalid recording ID'' 400)
      | Some i \<Rightarrow>
          if execFails env then (d, errError 500)
          else (d\<lparr>recordings := filter (\<lambda>r. ID r \<noteq> i) (recordings d)\<rparr>,
                \<lparr>statusCode = 204, header = [], body = NoBody\<rparr>)))"

text \<open>\<open>INSERT OR IGNORE\<close>: a channel whose guide number is already stored is skipped.\<close>

fun insertChannels :: "Channel list \<Rightarrow> DB \<Rightarrow> DB" where
  "insertChannels [] d = d"
| "insertChannels (c # cs) d =
     (if findChannel (GuideNumber c) d = None
      then insertChannels cs (d\<lparr>channels := channels d @ [c]\<rparr>)
      else insertChannels cs d)"

definition loadChannels :: "Channel list option \<Rightarrow> DB \<Rightarrow> DB" where
  "loadChannels fetched d = (case fetched of None \<Rightarrow> d | Some chs \<Rightarrow> insertChannels chs d)"


section \<open>The program as a transition system\<close>

text \<open>
  The state is the database and the goroutines that ticks have started and that have
  not finished. \<open>Worker k\<close> runs the \<open>k\<close>-th of them to its end.
\<close>

record State =
  db :: DB
  running :: "Recording list"

datatype Event =
    LoadChannels "Channel list option"
  | Startup "nat \<Rightarrow> int" "Recording list"
  | Tick int
  | Worker nat
  | Create string "RecordingRequest option"
  | Delete string string
  | Fetch string string

fun step :: "Env \<Rightarrow> Event \<Rightarrow> State \<Rightarrow> State" where
  "step env (LoadChannels fetched) s = s\<lparr>db := loadChannels fetched (db s)\<rparr>"
| "step env (Startup clock ch) s = s\<lparr>db := fst (loadRecordings env clock (db s) ch)\<rparr>"
| "step env (Tick now) s =
     (case schedulerTick env now (db s) of
        (d, started) \<Rightarrow> \<lparr>db = d, running = running s @ started\<rparr>)"
| "step env (Worker k) s =
     (if k < length (running s)
      then \<lparr>db = fst (startRecording env (db s) (running s ! k)),
            running = take k (running s) @ drop (Suc k) (running s)\<rparr>
      else s)"
| "step env (Create method decoded) s = s\<lparr>db := fst (createRecording env (db s) method decoded)\<rparr>"
| "step env (Delete method idStr) s = s\<lparr>db := fst (deleteRecording env (db s) method idStr)\<rparr>"
| "step env (Fetch idStr rangeHeader) s = s\<lparr>db := fst (getRecordingFile env (db s) idStr rangeHeader)\<rparr>"

fun run :: "(Env \<times> Event) list \<Rightarrow> State \<Rightarrow> State" where
  "run [] s = s"
| "run ((env, ev) # evs) s = run evs (step env ev s)"

text \<open>
  What \<open>createTables\<close> leaves on a first start: both tables empty, nothing running.
  A store is reachable when a run from there ends in it.
\<close>

definition initialState :: State where
  "initialState = \<lparr>db = \<lparr>channels = [], recordings = [], seq = 0\<rparr>, running = []\<rparr>"

text \<open>Every stored job has its channel row.\<close>

definition noDangling :: "DB \<Rightarrow> bool" where
  "noDangling d = list_all (\<lambda>r. findChannel (ChannelID r) d \<noteq> None) (recordings d)"

section \<open>Range headers as the specification words them\<close>

text \<open>
  A decimal literal is an optional plus sign and one or more digits whose value fits a
  signed 64-bit integer. A header denotes the range from \<open>A\<close> to \<open>B\<close> in a file
  of size \<open>S\<close> when it is \<open>bytes=A\<close> or \<open>bytes=A-\<close> (then \<open>B\<close> is
  \<open>S - 1\<close>) or \<open>bytes=A-B\<close>.
\<close>

definition stripPlus :: "string \<Rightarrow> string" where
  "stripPlus a = (case a of [] \<Rightarrow> [] | c # cs \<Rightarrow> if c = CHR ''+'' then cs else a)"

definition decimal :: "string \<Rightarrow> int" where
  "decimal ds = foldl (\<lambda>n c. n * 10 + (of_char c - 48)) 0 ds"

definition intLit :: "string \<Rightarrow> bool" where
  "intLit a = (stripPlus a \<noteq> [] \<and> list_all isDigit (stripPlus a)
                \<and> decimal (stripPlus a) \<le> 9223372036854775807)"

definition intVal :: "string \<Rightarrow> int" where
  "intVal a = decimal (stripPlus a)"

definition classify :: "int \<Rightarrow> int \<Rightarrow> int \<Rightarrow> RangeResult" where
  "classify A B S = (if A > B \<or> B \<ge> S then NotSatisfiable else Partial A B)"

definition rangeDenotes :: "string \<Rightarrow> int \<Rightarrow> int \<Rightarrow> int \<Rightarrow> bool" where
  "rangeDenotes h S A B =
     ((\<exists>a. intLit a \<and> (h = ''bytes='' @ a \<or> h = ''bytes='' @ a @ ''-'')
           \<and> A = intVal a \<and> B = S - 1)
      \<or> (\<exists>a b. intLit a \<and> intLit b \<and> h = ''bytes='' @ a @ ''-'' @ b
           \<and> A = intVal a \<and> B = intVal b))"



section \<open>A concrete installation\<close>

text \<open>
  One channel, one job on it at 19:00 for 30 minutes, a ten-byte capture file. The
  instant 0 is the job's start.
\<close>

definition exChannel :: Channel where
  "exChannel = \<lparr>GuideNumber = ''5'', GuideName = ''KQED'', URL = ''http://hdhomerun.local:5004/auto/v5''\<rparr>"

definition exJob :: Recording where
  "exJob = \<lparr>ID = 1, ChannelID = ''5'', Date = ''2026-01-01'', StartTime = ''19:00'',
             Duration = 30, Status = ''pending''\<rparr>"

definition exRequest :: RecordingRequest where
  "exRequest = \<lparr>reqChannelID = ''5'', reqDate = ''2026-01-01'', reqStartTime = ''19:00'',
                 reqDuration = 30\<rparr>"

definition exBadRequest :: RecordingRequest where
  "exBadRequest = \<lparr>reqChannelID = ''99'', reqDate = ''2026-01-01'', reqStartTime = ''19:00'',
                    reqDuration = 0\<rparr>"

definition exEmptyDB :: DB where
  "exEmptyDB = \<lparr>channels = [], recordings = [], seq = 0\<rparr>"

definition exDB :: DB where
  "exDB = \<lparr>channels = [exChannel], recordings = [exJob], seq = 1\<rparr>"

definition exDoneDB :: DB where
  "exDoneDB = \<lparr>channels = [exChannel], recordings = [exJob\<lparr>Status := ''completed''\<rparr>], seq = 1\<rparr>"

definition exRecordingDB :: DB where
  "exRecordingDB = \<lparr>channels = [exChannel], recordings = [exJob\<lparr>Status := ''recording''\<rparr>], seq = 1\<rparr>"

definition exFile :: "string \<Rightarrow> fsnode" where
  "exFile p = (if p = ''/data/2026-01-01-19:00-KQED-5.mp4'' then File ''0123456789'' else Absent)"

definition exParse :: "string \<Rightarrow> int option" where
  "exParse s = (if s = ''2026-01-01 19:00'' then Some 0 else None)"

definition exEnv :: Env where
  "exEnv = \<lparr>STORAGE_DIR = ''/data'', fs = exFile, ParseInLocation = exParse,
             queryFails = False, execFails = False, lastIdFails = False,
             mkdirFails = False, createFails = False, runFails = False\<rparr>"

definition exFailEnv :: Env where
  "exFailEnv = exEnv\<lparr>runFails := True\<rparr>"

definition exDownEnv :: Env where
  "exDownEnv = exEnv\<lparr>queryFails := True\<rparr>"

definition exNoFileEnv :: Env where
  "exNoFileEnv = exEnv\<lparr>fs := (\<lambda>p. Absent)\<rparr>"



definition exStarted :: State where
  "exStarted = run [(exEnv, LoadChannels (Some [exChannel])),
                    (exEnv, Create ''POST'' (Some exRequest)),
                    (exEnv, Tick 1)] \<lparr>db = exEmptyDB, running = []\<rparr>"


section \<open>Lemmas about the library functions\<close>

lemma Split_not_Nil: "Split s sep \<noteq> []"
  by (induction s) (auto split: list.splits)

lemma Split_no_sep: "sep \<notin> set a \<Longrightarrow> Split a sep = [a]"
  by (induction a) auto

lemma Split_append_sep: "sep \<notin> set a \<Longrightarrow> Split (a @ sep # b) sep = a # Split b sep"
  by (induction a) auto

lemma Split_one: "Split s sep = [a] \<Longrightarrow> s = a \<and> sep \<notin> set a"
proof (induction s arbitrary: a)
  case Nil
  then show ?case by simp
next
  case (Cons c cs)
  show ?case
  proof (cases "c = sep")
    case True
    with Cons.prems show ?thesis by (simp add: Split_not_Nil)
  next
    case False
    with Cons.prems obtain p where p: "Split cs sep = [p]" and a: "a = c # p"
      by (auto simp: Split_not_Nil split: list.splits)
    from Cons.IH [OF p] a False show ?thesis by simp
  qed
qed

lemma Split_two: "Split s sep = [a, b] \<Longrightarrow> s = a @ sep # b \<and> sep \<notin> set a \<and> sep \<notin> set b"
proof (induction s arbitrary: a)
  case Nil
  then show ?case by simp
next
  case (Cons c cs)
  show ?case
  proof (cases "c = sep")
    case True
    with Cons.prems have "a = []" and "Split cs sep = [b]" by auto
    with Split_one [of cs sep b] True show ?thesis by simp
  next
    case False
    with Cons.prems obtain p where p: "Split cs sep = [p, b]" and a: "a = c # p"
      by (auto split: list.splits)
    from Cons.IH [OF p] a False show ?thesis by simp
  qed
qed

lemma digitsVal_foldl:
  "digitsVal n ds = (if list_all isDigit ds then Some (foldl (\<lambda>n c. n * 10 + (of_char c - 48)) n ds) else None)"
  by (induction ds arbitrary: n) auto

lemma isDigit_not_sep: "isDigit c \<Longrightarrow> c \<noteq> CHR ''-'' \<and> c \<noteq> CHR ''='' \<and> c \<noteq> CHR ''+''"
  by (auto simp: isDigit_def)

lemma intLit_no_sep: "intLit a \<Longrightarrow> CHR ''-'' \<notin> set a \<and> CHR ''='' \<notin> set a \<and> a \<noteq> []"
  by (cases a) (auto simp: intLit_def stripPlus_def list_all_iff dest: isDigit_not_sep split: if_splits)

lemma ParseInt_intLit: "intLit a \<Longrightarrow> ParseInt a = Some (intVal a)"
  by (cases a)
     (auto simp: intLit_def intVal_def stripPlus_def ParseInt_def ParseUint_def Let_def
        digitsVal_foldl decimal_def dest: isDigit_not_sep split: if_splits)

lemma intLit_ParseInt:
  assumes "ParseInt a = Some v" and "CHR ''-'' \<notin> set a"
  shows "intLit a \<and> intVal a = v"
proof (cases a)
  case Nil
  with assms show ?thesis by (simp add: ParseInt_def)
next
  case (Cons c cs)
  with assms show ?thesis
    by (auto simp: intLit_def intVal_def stripPlus_def ParseInt_def ParseUint_def Let_def
        digitsVal_foldl decimal_def split: if_splits option.splits)
qed


declare digits10.simps [simp del]

lemma foldl_decimal_nonneg:
  "0 \<le> n \<Longrightarrow> list_all isDigit ds \<Longrightarrow> 0 \<le> foldl (\<lambda>(n::int) c. n * 10 + (of_char c - 48)) n ds"
proof (induction ds arbitrary: n)
  case Nil
  then show ?case by simp
next
  case (Cons c cs)
  from Cons.prems have "0 \<le> n * 10 + (of_char c - 48)"
    by (simp add: isDigit_def)
  with Cons show ?case by simp
qed

lemma intVal_nonneg: "intLit a \<Longrightarrow> 0 \<le> intVal a"
  by (simp add: intLit_def intVal_def decimal_def foldl_decimal_nonneg)

lemma Split_bytes: "CHR ''='' \<notin> set x \<Longrightarrow> Split (''bytes='' @ x) (CHR ''='') = [''bytes'', x]"
  by (simp add: Split_no_sep)

lemma parseRange_two:
  assumes "intLit a" and "intLit b"
  shows "parseRange (''bytes='' @ a @ ''-'' @ b) S = classify (intVal a) (intVal b) S"
proof -
  from assms have eq: "CHR ''='' \<notin> set (a @ ''-'' @ b)"
    by (auto dest: intLit_no_sep)
  from assms have "CHR ''-'' \<notin> set a" and "CHR ''-'' \<notin> set b"
    using intLit_no_sep by blast+
  then have sp: "Split (a @ ''-'' @ b) (CHR ''-'') = [a, b]"
    by (simp add: Split_append_sep Split_no_sep)
  from assms have "b \<noteq> []" by (auto dest: intLit_no_sep)
  with assms sp Split_bytes [OF eq] intVal_nonneg [of a] show ?thesis
    by (simp add: parseRange_def ParseInt_intLit classify_def del: Split.simps)
qed

lemma parseRange_open:
  assumes "intLit a"
  shows "parseRange (''bytes='' @ a @ ''-'') S = classify (intVal a) (S - 1) S"
proof -
  from assms have eq: "CHR ''='' \<notin> set (a @ ''-'')"
    by (auto dest: intLit_no_sep)
  from assms have "CHR ''-'' \<notin> set a"
    using intLit_no_sep by blast
  then have sp: "Split (a @ ''-'') (CHR ''-'') = [a, []]"
    by (simp add: Split_append_sep)
  with assms Split_bytes [OF eq] intVal_nonneg [of a] show ?thesis
    by (simp add: parseRange_def ParseInt_intLit classify_def del: Split.simps)
qed

lemma parseRange_bare:
  assumes "intLit a"
  shows "parseRange (''bytes='' @ a) S = classify (intVal a) (S - 1) S"
proof -
  from assms have eq: "CHR ''='' \<notin> set a"
    by (auto dest: intLit_no_sep)
  from assms have "CHR ''-'' \<notin> set a"
    using intLit_no_sep by blast
  then have sp: "Split a (CHR ''-'') = [a]"
    by (simp add: Split_no_sep)
  with assms Split_bytes [OF eq] intVal_nonneg [of a] show ?thesis
    by (simp add: parseRange_def ParseInt_intLit classify_def del: Split.simps)
qed

lemma parseRange_form:
  assumes "parseRange h S \<noteq> BadRequest"
  shows "(\<exists>a. intLit a \<and> (h = ''bytes='' @ a \<or> h = ''bytes='' @ a @ ''-''))
       \<or> (\<exists>a b. intLit a \<and> intLit b \<and> h = ''bytes='' @ a @ ''-'' @ b)"
proof -
  from assms obtain p1 where sp: "Split h (CHR ''='') = [''bytes'', p1]"
    by (auto simp: parseRange_def split: list.splits if_splits)
  from Split_two [OF sp] have h: "h = ''bytes='' @ p1" by simp
  from assms sp have "\<not> (length (Split p1 (CHR ''-'')) < 1 \<or> length (Split p1 (CHR ''-'')) > 2)"
    by (auto simp: parseRange_def Let_def split: if_splits)
  then have len: "length (Split p1 (CHR ''-'')) = 1 \<or> length (Split p1 (CHR ''-'')) = 2"
    by arith
  then show ?thesis
  proof
    assume "length (Split p1 (CHR ''-'')) = 1"
    then obtain v0 where v: "Split p1 (CHR ''-'') = [v0]"
      by (cases "Split p1 (CHR ''-'')") auto
    from Split_one [OF v] have p1: "p1 = v0" and nd: "CHR ''-'' \<notin> set v0" by simp_all
    from assms sp v obtain start where "ParseInt v0 = Some start"
      by (auto simp: parseRange_def Let_def split: if_splits option.splits)
    from intLit_ParseInt [OF this nd] h p1 show ?thesis by blast
  next
    assume "length (Split p1 (CHR ''-'')) = 2"
    then obtain v0 v1 where v: "Split p1 (CHR ''-'') = [v0, v1]"
      by (cases "Split p1 (CHR ''-'')"; cases "tl (Split p1 (CHR ''-''))") auto
    from Split_two [OF v] have p1: "p1 = v0 @ ''-'' @ v1" and nd: "CHR ''-'' \<notin> set v0"
      and nd1: "CHR ''-'' \<notin> set v1" by simp_all
    from assms sp v obtain start where "ParseInt v0 = Some start"
      by (auto simp: parseRange_def Let_def split: if_splits option.splits)
    from intLit_ParseInt [OF this nd] have l0: "intLit v0" by simp
    show ?thesis
    proof (cases "v1 = []")
      case True
      with l0 h p1 show ?thesis by auto
    next
      case False
      with assms sp v obtain e where "ParseInt v1 = Some e"
        by (auto simp: parseRange_def Let_def split: if_splits option.splits)
      from intLit_ParseInt [OF this nd1] have "intLit v1" by simp
      with l0 h p1 show ?thesis by auto
    qed
  qed
qed

lemma of_char_digit: "0 \<le> n \<Longrightarrow> n < 10 \<Longrightarrow> (of_char (char_of (48 + n)) :: int) = 48 + n"
  by simp

lemma digits10_digits: "0 \<le> n \<Longrightarrow> list_all isDigit (digits10 n) \<and> digits10 n \<noteq> []"
proof (induction n rule: digits10.induct)
  case (1 n)
  show ?case
  proof (cases "n < 10")
    case True
    with "1.prems" show ?thesis
      by (subst (1 2) digits10.simps) (simp add: isDigit_def)
  next
    case False
    with "1.prems" have "0 \<le> n div 10" by simp
    with "1.IH" False have ih: "list_all isDigit (digits10 (n div 10))" by simp
    have "0 \<le> n mod 10" "n mod 10 < 10" by simp_all
    then have "isDigit (char_of (48 + n mod 10))"
      by (simp add: isDigit_def of_char_digit del: of_char_of)
    with ih False show ?thesis
      by (subst (1 2) digits10.simps) simp
  qed
qed

lemma foldl_decimal_append:
  "foldl (\<lambda>(n::int) c. n * 10 + (of_char c - 48)) k (xs @ [c]) =
     foldl (\<lambda>(n::int) c. n * 10 + (of_char c - 48)) k xs * 10 + (of_char c - 48)"
  by simp

lemma decimal_digits10: "0 \<le> n \<Longrightarrow> decimal (digits10 n) = n"
proof (induction n rule: digits10.induct)
  case (1 n)
  show ?case
  proof (cases "n < 10")
    case True
    with "1.prems" show ?thesis
      by (subst digits10.simps) (simp add: decimal_def)
  next
    case False
    with "1.prems" have "0 \<le> n div 10" by simp
    with "1.IH" False have ih: "decimal (digits10 (n div 10)) = n div 10" by simp
    have "0 \<le> n mod 10" "n mod 10 < 10" by simp_all
    then have "(of_char (char_of (48 + n mod 10)) :: int) = 48 + n mod 10"
      by (rule of_char_digit)
    with ih False show ?thesis
      by (subst digits10.simps) (simp add: decimal_def del: of_char_of)
  qed
qed

lemma stripPlus_digits: "list_all isDigit ds \<Longrightarrow> stripPlus ds = ds"
  by (cases ds) (auto simp: stripPlus_def dest: isDigit_not_sep)

lemma intLit_FormatInt:
  assumes "0 \<le> n" and "n \<le> 9223372036854775807"
  shows "intLit (FormatInt n) \<and> intVal (FormatInt n) = n"
  using assms digits10_digits [of n] decimal_digits10 [of n]
  by (simp add: FormatInt_def intLit_def intVal_def stripPlus_digits)


section \<open>The claims\<close>

lemma dueRecordings_iff:
  "r \<in> set (dueRecordings env now rs) \<longleftrightarrow>
     r \<in> set rs \<and> (\<exists>st. ParseInLocation env (Date r @ '' '' @ StartTime r) = Some st
                      \<and> st < now \<and> now < st + Minute)"
  by (induction rs) (auto simp: After_def Before_def split: option.splits)

lemma exJob_start: "ParseInLocation exEnv (Date exJob @ '' '' @ StartTime exJob) = Some 0"
  by (simp add: exEnv_def exJob_def exParse_def)

lemma exJob_due: "dueRecordings exEnv now [exJob] = (if 0 < now \<and> now < Minute then [exJob] else [])"
  by (simp add: exEnv_def exJob_def exParse_def After_def Before_def)

lemma exDB_pending: "pendingRecordings exDB = [exJob]"
  by (simp add: pendingRecordings_def exDB_def exJob_def)

lemma exTick: "schedulerTick exEnv now exDB = (exDB, if 0 < now \<and> now < Minute then [exJob] else [])"
proof -
  have "\<not> queryFails exEnv" by (simp add: exEnv_def)
  then show ?thesis
    by (simp add: schedulerTick_def exDB_pending exJob_due del: dueRecordings.simps)
qed

subsection \<open>C1: a tick starts due jobs without touching their status\<close>

lemma dueRecordings_filter:
  "dueRecordings env now rs =
     filter (\<lambda>r. \<exists>st. ParseInLocation env (Date r @ '' '' @ StartTime r) = Some st
                    \<and> st < now \<and> now < st + Minute) rs"
  by (induction rs) (auto simp: After_def Before_def split: option.splits)

text \<open>
  C1, as the code has it. A tick returns the database as it found it. When its query
  fails it starts nothing. When its query succeeds, the jobs it starts are exactly the
  pending rows whose start time parses and lies strictly less than one minute before
  \<open>now\<close>, each once. Every job it starts is a row that is, and stays,
  \<open>pending\<close>: there is no compare-and-set and no status \<open>recording\<close>. So any
  tick inside the window of a started job starts it again, and a tick one minute or more
  after the first does not.
\<close>

theorem tick_starts_due_jobs_without_update:
  assumes "schedulerTick env now d = (d', started)"
  shows "d' = d
     \<and> (queryFails env \<longrightarrow> started = [])
     \<and> (\<not> queryFails env \<longrightarrow>
          started = filter (\<lambda>r. \<exists>st. ParseInLocation env (Date r @ '' '' @ StartTime r) = Some st
                                    \<and> st < now \<and> now < st + Minute)
                      (filter (\<lambda>r. Status r = ''pending'') (recordings d)))
     \<and> (\<forall>r \<in> set started. r \<in> set (recordings d') \<and> Status r = ''pending''
          \<and> (\<forall>now' st. ParseInLocation env (Date r @ '' '' @ StartTime r) = Some st
                 \<and> st < now' \<and> now' < st + Minute
               \<longrightarrow> r \<in> set (snd (schedulerTick env now' d')))
          \<and> (\<forall>now'. now + Minute \<le> now' \<longrightarrow> r \<notin> set (snd (schedulerTick env now' d'))))"
proof -
  from assms have d: "d' = d"
    by (simp add: schedulerTick_def split: if_splits)
  from assms have f: "started = []" if "queryFails env"
    using that by (simp add: schedulerTick_def)
  from assms have ok: "started = filter (\<lambda>r. \<exists>st. ParseInLocation env (Date r @ '' '' @ StartTime r) = Some st
                                    \<and> st < now \<and> now < st + Minute)
                      (filter (\<lambda>r. Status r = ''pending'') (recordings d))"
    if "\<not> queryFails env"
    using that by (auto simp: schedulerTick_def dueRecordings_filter pendingRecordings_def)
  have each: "r \<in> set (recordings d) \<and> Status r = ''pending''
          \<and> (\<forall>now' st. ParseInLocation env (Date r @ '' '' @ StartTime r) = Some st
                 \<and> st < now' \<and> now' < st + Minute
               \<longrightarrow> r \<in> set (snd (schedulerTick env now' d)))
          \<and> (\<forall>now'. now + Minute \<le> now' \<longrightarrow> r \<notin> set (snd (schedulerTick env now' d)))"
    if r: "r \<in> set started" for r
  proof -
    from r f have q: "\<not> queryFails env" by auto
    from r ok [OF q] have p: "r \<in> set (recordings d)" "Status r = ''pending''"
      and "\<exists>st. ParseInLocation env (Date r @ '' '' @ StartTime r) = Some st \<and> st < now \<and> now < st + Minute"
      by auto
    then obtain st where st: "ParseInLocation env (Date r @ '' '' @ StartTime r) = Some st" "st < now"
      by blast
    have again: "r \<in> set (snd (schedulerTick env now' d))"
      if "ParseInLocation env (Date r @ '' '' @ StartTime r) = Some st'" "st' < now'" "now' < st' + Minute"
      for now' st'
      using that p q by (simp add: schedulerTick_def dueRecordings_filter pendingRecordings_def)
    have later: "r \<notin> set (snd (schedulerTick env now' d))" if "now + Minute \<le> now'" for now'
      using that st q by (auto simp: schedulerTick_def dueRecordings_filter)
    from p again later show ?thesis by blast
  qed
  from d f ok each show ?thesis by blast
qed

lemma exDown_tick: "schedulerTick exDownEnv now exDB = (exDB, [])"
  by (simp add: schedulerTick_def exDownEnv_def)

text \<open>
  The theorem at the tick one nanosecond after the start of the example job, and at a
  tick whose query fails.
\<close>

theorem tick_starts_due_jobs_without_update_witness:
  "schedulerTick exEnv 1 exDB = (exDB, [exJob])
     \<and> \<not> queryFails exEnv
     \<and> exJob \<in> set (recordings exDB) \<and> Status exJob = ''pending''
     \<and> ParseInLocation exEnv (Date exJob @ '' '' @ StartTime exJob) = Some 0
     \<and> exJob \<in> set (snd (schedulerTick exEnv 2 exDB))
     \<and> exJob \<notin> set (snd (schedulerTick exEnv (1 + Minute) exDB))
     \<and> queryFails exDownEnv \<and> schedulerTick exDownEnv 1 exDB = (exDB, [])"
proof -
  have t: "schedulerTick exEnv 1 exDB = (exDB, [exJob])"
    by (simp add: exTick Minute_def)
  note w = tick_starts_due_jobs_without_update [OF t]
  from w have a: "exJob \<in> set (recordings exDB) \<and> Status exJob = ''pending''" by simp
  from w exJob_start have b: "exJob \<in> set (snd (schedulerTick exEnv 2 exDB))"
    by (simp add: Minute_def)
  from w have c: "exJob \<notin> set (snd (schedulerTick exEnv (1 + Minute) exDB))" by simp
  note v = tick_starts_due_jobs_without_update [OF exDown_tick [of 1]]
  have e: "queryFails exDownEnv" by (simp add: exDownEnv_def)
  have q: "\<not> queryFails exEnv" by (simp add: exEnv_def)
  from t a b c e exDown_tick exJob_start q show ?thesis by simp
qed

text \<open>
  Against C1 as stated: the tick starts the job and leaves it \<open>pending\<close>, and a
  second caller one nanosecond later starts it again.
\<close>

theorem tick_compare_and_set_counterexample:
  "schedulerTick exEnv 1 exDB = (exDB, [exJob])
     \<and> map_option Status (findRecording 1 exDB) = Some ''pending''
     \<and> schedulerTick exEnv 2 exDB = (exDB, [exJob])"
  by (simp add: exTick Minute_def) (simp add: findRecording_def exDB_def exJob_def)

subsection \<open>C5: the due window is open at both ends\<close>

text \<open>
  C5, as the code has it. When the query of a tick succeeds, the tick starts a row if and
  only if the row is pending, its start time parses, and \<open>now\<close> lies strictly
  between the start and one minute after it.
\<close>

theorem due_window_is_open:
  assumes "\<not> queryFails env"
  shows "r \<in> set (snd (schedulerTick env now d)) \<longleftrightarrow>
     r \<in> set (recordings d) \<and> Status r = ''pending''
     \<and> (\<exists>st. ParseInLocation env (Date r @ '' '' @ StartTime r) = Some st
            \<and> st < now \<and> now < st + Minute)"
  using assms by (auto simp: schedulerTick_def dueRecordings_iff pendingRecordings_def)

text \<open>The theorem at a tick thirty seconds after the start of the example job.\<close>

theorem due_window_is_open_witness:
  "\<not> queryFails exEnv \<and> exJob \<in> set (snd (schedulerTick exEnv 30000000000 exDB))
     \<and> exJob \<in> set (recordings exDB) \<and> Status exJob = ''pending''"
proof -
  have q: "\<not> queryFails exEnv" by (simp add: exEnv_def)
  have "exJob \<in> set (snd (schedulerTick exEnv 30000000000 exDB))"
    by (simp add: exTick Minute_def)
  with due_window_is_open [OF q, of exJob 30000000000 exDB] q show ?thesis by simp
qed

text \<open>
  Against C5 as stated: a tick exactly at the start instant lies in the half-open window
  and starts nothing.
\<close>

theorem tick_at_start_counterexample:
  "ParseInLocation exEnv (Date exJob @ '' '' @ StartTime exJob) = Some 0
     \<and> pendingRecordings exDB = [exJob]
     \<and> (0::int) \<le> 0 \<and> (0::int) < 0 + Minute
     \<and> snd (schedulerTick exEnv 0 exDB) = []"
  by (simp add: exTick exDB_pending Minute_def) (simp add: exEnv_def exJob_def exParse_def)

subsection \<open>Lookups after a write\<close>

lemma find_setStatus:
  "find (\<lambda>r. ID r = i) (map (\<lambda>r. if ID r = j then r\<lparr>Status := st\<rparr> else r) rs) =
     map_option (\<lambda>r. if ID r = j then r\<lparr>Status := st\<rparr> else r) (find (\<lambda>r. ID r = i) rs)"
  by (induction rs) auto

lemma findRecording_setStatus:
  "findRecording i (setStatus j st d) =
     map_option (\<lambda>r. if ID r = j then r\<lparr>Status := st\<rparr> else r) (findRecording i d)"
  by (simp add: findRecording_def setStatus_def find_setStatus)



lemma find_ID: "find (\<lambda>r. ID r = i) rs = Some r \<Longrightarrow> ID r = i"
  by (induction rs) (auto split: if_splits)

lemma findChannel_GuideNumber: "findChannel g d = Some c \<Longrightarrow> GuideNumber c = g"
  unfolding findChannel_def by (induction "channels d") (auto split: if_splits simp: find_Some_iff)

lemma recordings_insertChannels: "recordings (insertChannels cs d) = recordings d"
  by (induction cs arbitrary: d) auto


lemma loadRecordings_db: "fst (loadRecordings env clock d ch) = d"
  by (simp add: loadRecordings_def)


lemma getRecordingFile_db: "fst (getRecordingFile env d idStr h) = d"
  by (simp add: getRecordingFile_def Let_def split: option.splits fsnode.splits)

lemma startRecording_db:
  "fst (startRecording env d r) = d \<or> fst (startRecording env d r) = setStatus (ID r) ''completed'' d"
  by (simp add: startRecording_def Let_def split: option.splits)






lemma startRecording_fails: "runFails env \<Longrightarrow> fst (startRecording env d r) = d"
  by (simp add: startRecording_def Let_def split: option.splits)

lemma startRecording_clean:
  assumes "\<not> queryFails env" and "findChannel (ChannelID r) d = Some ch"
    and "\<not> mkdirFails env" and "\<not> createFails env" and "\<not> runFails env"
    and "\<not> execFails env"
  shows "fst (startRecording env d r) = setStatus (ID r) ''completed'' d"
  using assms by (simp add: startRecording_def Let_def)

lemma exEnv_flags:
  "\<not> queryFails exEnv" "\<not> execFails exEnv" "\<not> lastIdFails exEnv"
  "\<not> mkdirFails exEnv" "\<not> createFails exEnv" "\<not> runFails exEnv"
  by (simp_all add: exEnv_def)

lemma exDB_channel: "findChannel (ChannelID exJob) exDB = Some exChannel"
  by (simp add: findChannel_def exDB_def exJob_def exChannel_def)

lemma exDB_job: "findRecording 1 exDB = Some exJob"
  by (simp add: findRecording_def exDB_def exJob_def)

lemma exWorker_clean: "fst (startRecording exEnv exDB exJob) = exDoneDB"
  using startRecording_clean [OF exEnv_flags(1) exDB_channel exEnv_flags(4,5,6,2)]
  by (simp add: setStatus_def exDB_def exDoneDB_def exJob_def)

lemma exStarted_eq: "exStarted = \<lparr>db = exDB, running = [exJob]\<rparr>"
proof -
  have 1: "loadChannels (Some [exChannel]) exEmptyDB = \<lparr>channels = [exChannel], recordings = [], seq = 0\<rparr>"
    by (simp add: loadChannels_def exEmptyDB_def findChannel_def)
  have 2: "fst (createRecording exEnv \<lparr>channels = [exChannel], recordings = [], seq = 0\<rparr> ''POST'' (Some exRequest)) = exDB"
    using exEnv_flags
    by (simp add: createRecording_def Let_def nextId_def findChannel_def exChannel_def
        exRequest_def exDB_def exJob_def)
  show ?thesis
    by (simp add: exStarted_def 1 2 exTick Minute_def)
qed

subsection \<open>C2: the only status ever written is completed\<close>





subsection \<open>C3: an elapsed pending job is never failed\<close>







subsection \<open>C4: what the worker writes when the capture ends\<close>

text \<open>
  C4, as the code has it. When the ffmpeg run returns an error, the worker returns with
  the database as it was. When the channel is found, the directory and the log file are
  made, the run returns no error and the update succeeds, the job's row has the status
  \<open>completed\<close> afterwards, whatever its status was.
\<close>

theorem capture_end_status:
  "(runFails env \<longrightarrow> fst (startRecording env d r) = d)
   \<and> (\<not> queryFails env \<and> findChannel (ChannelID r) d = Some ch \<and> \<not> mkdirFails env
        \<and> \<not> createFails env \<and> \<not> runFails env \<and> \<not> execFails env
        \<and> findRecording (ID r) d = Some x
      \<longrightarrow> findRecording (ID r) (fst (startRecording env d r)) = Some (x\<lparr>Status := ''completed''\<rparr>))"
proof -
  have "findRecording (ID r) (setStatus (ID r) ''completed'' d) = Some (x\<lparr>Status := ''completed''\<rparr>)"
    if "findRecording (ID r) d = Some x"
    using that find_ID [of "ID r" "recordings d" x]
    by (simp add: findRecording_setStatus) (simp add: findRecording_def)
  then show ?thesis
    by (auto simp: startRecording_fails startRecording_clean)
qed

text \<open>The theorem at a failing and at a clean run for the example job.\<close>

theorem capture_end_status_witness:
  "runFails exFailEnv \<and> fst (startRecording exFailEnv exDB exJob) = exDB
     \<and> \<not> queryFails exEnv \<and> findChannel (ChannelID exJob) exDB = Some exChannel
     \<and> \<not> mkdirFails exEnv \<and> \<not> createFails exEnv \<and> \<not> runFails exEnv \<and> \<not> execFails exEnv
     \<and> findRecording (ID exJob) exDB = Some exJob
     \<and> findRecording (ID exJob) (fst (startRecording exEnv exDB exJob))
         = Some (exJob\<lparr>Status := ''completed''\<rparr>)"
proof -
  have f: "runFails exFailEnv" by (simp add: exFailEnv_def)
  have j: "findRecording (ID exJob) exDB = Some exJob"
    using exDB_job by (simp add: exJob_def)
  from capture_end_status [of exFailEnv exDB exJob exChannel exJob]
    capture_end_status [of exEnv exDB exJob exChannel exJob]
    f j exEnv_flags exDB_channel
  show ?thesis by simp
qed

text \<open>
  Against C4 as stated: the ffmpeg run fails for a job stored as \<open>recording\<close>, and
  for one stored as \<open>pending\<close>; each keeps its status and none becomes \<open>failed\<close>.
\<close>

theorem capture_failure_counterexample:
  "runFails exFailEnv
     \<and> map_option Status (findRecording 1 (fst (startRecording exFailEnv exRecordingDB
           (exJob\<lparr>Status := ''recording''\<rparr>)))) = Some ''recording''
     \<and> map_option Status (findRecording 1 (fst (startRecording exFailEnv exDB exJob))) = Some ''pending''"
proof -
  have f: "runFails exFailEnv" by (simp add: exFailEnv_def)
  then show ?thesis
    by (simp add: startRecording_fails exDB_job)
       (simp add: findRecording_def exRecordingDB_def exJob_def)
qed

subsection \<open>What the media server answers\<close>

lemma getRecordingFile_served:
  assumes "Atoi idStr = Some i" and "\<not> queryFails env" and "findRecording i d = Some job"
    and "findChannel (ChannelID job) d = Some c" and "Status job = ''completed''"
    and "fs env (serverFilePath env job (GuideName c)) = File content"
  shows "getRecordingFile env d idStr h =
           (d, serveContent (serverFilePath env job (GuideName c)) content h)"
  using assms by (simp add: getRecordingFile_def Let_def)

lemma serveContent_partial:
  assumes "h \<noteq> []" and "parseRange h (int (length content)) = Partial A B"
  shows "serveContent p content h =
     \<lparr>statusCode = 206,
      header = [(''Content-Range'',
                 ''bytes '' @ FormatInt A @ ''-'' @ FormatInt B @ ''/''
                   @ FormatInt (int (length content))),
                (''Content-Length'', FormatInt (B - A + 1)),
                (''Accept-Ranges'', ''bytes'')],
      body = Bytes (take (nat (B - A + 1)) (drop (nat A) content))\<rparr>"
  using assms by (simp add: serveContent_def Let_def)

lemma serveContent_status:
  assumes "h \<noteq> []"
  shows "statusCode (serveContent p content h) =
     (case parseRange h (int (length content)) of
        BadRequest \<Rightarrow> 400 | NotSatisfiable \<Rightarrow> 416 | Partial A B \<Rightarrow> 206)"
  using assms by (simp add: serveContent_def Let_def httpError_def split: RangeResult.splits)

lemma parseRange_denotes: "rangeDenotes h S A B \<Longrightarrow> parseRange h S = classify A B S"
  using parseRange_two [of _ _ S] parseRange_open [of _ S] parseRange_bare [of _ S]
  unfolding rangeDenotes_def by blast

lemma parseRange_accepts: "parseRange h S \<noteq> BadRequest \<Longrightarrow> \<exists>A B. rangeDenotes h S A B"
  using parseRange_form [of h S] unfolding rangeDenotes_def by blast

lemma exServerPath: "serverFilePath exEnv (exJob\<lparr>Status := st\<rparr>) (GuideName exChannel) = ''/data/2026-01-01-19:00-KQED-5.mp4''"
  by (simp add: serverFilePath_def fileName_def exEnv_def exJob_def exChannel_def Clean_def)

lemma Atoi_1: "Atoi ''1'' = Some 1"
  by (simp add: Atoi_def ParseInt_def ParseUint_def isDigit_def)

lemma exDone_job: "findRecording 1 exDoneDB = Some (exJob\<lparr>Status := ''completed''\<rparr>)"
  by (simp add: findRecording_def exDoneDB_def exJob_def)

lemma exDone_channel: "findChannel (ChannelID (exJob\<lparr>Status := ''completed''\<rparr>)) exDoneDB = Some exChannel"
  by (simp add: findChannel_def exDoneDB_def exJob_def exChannel_def)

lemma exDone_file: "fs exEnv (serverFilePath exEnv (exJob\<lparr>Status := ''completed''\<rparr>) (GuideName exChannel)) = File ''0123456789''"
  by (simp add: exServerPath) (simp add: exEnv_def exFile_def)

lemma exDone_fetch:
  "getRecordingFile exEnv exDoneDB ''1'' h =
     (exDoneDB, serveContent ''/data/2026-01-01-19:00-KQED-5.mp4'' ''0123456789'' h)"
  using getRecordingFile_served [OF Atoi_1 exEnv_flags(1) exDone_job exDone_channel _ exDone_file, of h]
  by (simp add: exServerPath)

lemma FormatInt_2_5: "FormatInt 2 = ''2''" "FormatInt 5 = ''5''" "FormatInt 4 = ''4''" "FormatInt 10 = ''10''"
  by (simp_all add: FormatInt_def digits10.simps char_of_def)


subsection \<open>C6: a satisfiable range is served as 206 with exactly its bytes\<close>

text \<open>
  C6. For a completed job whose channel row exists and whose file is on disk with
  content of \<open>S\<close> bytes (a size that fits the signed 64 bits of \<open>fileInfo.Size()\<close>),
  and for \<open>0 \<le> A \<le> B < S\<close>, the header \<open>bytes=A-B\<close>, and the header
  \<open>bytes=A-\<close> with \<open>B = S - 1\<close>, is answered with status 206, the headers
  \<open>Content-Range: bytes A-B/S\<close>, \<open>Content-Length: B-A+1\<close> and
  \<open>Accept-Ranges: bytes\<close>, and a body of \<open>B-A+1\<close> bytes that are the bytes
  \<open>A\<close> to \<open>B\<close> of the file.
\<close>

theorem range_request_served:
  assumes "Atoi idStr = Some i" and "\<not> queryFails env" and "findRecording i d = Some job"
    and "findChannel (ChannelID job) d = Some c" and "Status job = ''completed''"
    and "fs env (serverFilePath env job (GuideName c)) = File content"
    and "S = int (length content)" and "S \<le> 9223372036854775807"
    and "0 \<le> A" and "A \<le> B" and "B < S"
    and "h = ''bytes='' @ FormatInt A @ ''-'' @ FormatInt B
         \<or> (h = ''bytes='' @ FormatInt A @ ''-'' \<and> B = S - 1)"
  shows "getRecordingFile env d idStr h =
     (d, \<lparr>statusCode = 206,
          header = [(''Content-Range'',
                     ''bytes '' @ FormatInt A @ ''-'' @ FormatInt B @ ''/'' @ FormatInt S),
                    (''Content-Length'', FormatInt (B - A + 1)),
                    (''Accept-Ranges'', ''bytes'')],
          body = Bytes (take (nat (B - A + 1)) (drop (nat A) content))\<rparr>)
     \<and> length (take (nat (B - A + 1)) (drop (nat A) content)) = nat (B - A + 1)
     \<and> (\<forall>k. k < nat (B - A + 1) \<longrightarrow>
           take (nat (B - A + 1)) (drop (nat A) content) ! k = content ! (nat A + k))"
proof -
  from assms have la: "intLit (FormatInt A)" "intVal (FormatInt A) = A"
    and lb: "intLit (FormatInt B)" "intVal (FormatInt B) = B"
    using intLit_FormatInt [of A] intLit_FormatInt [of B] by simp_all
  from assms(12) have "parseRange h S = classify A B S"
  proof
    assume "h = ''bytes='' @ FormatInt A @ ''-'' @ FormatInt B"
    with la lb parseRange_two [of "FormatInt A" "FormatInt B" S] show ?thesis by simp
  next
    assume "h = ''bytes='' @ FormatInt A @ ''-'' \<and> B = S - 1"
    with la parseRange_open [of "FormatInt A" S] show ?thesis by simp
  qed
  with assms have p: "parseRange h (int (length content)) = Partial A B"
    by (simp add: classify_def)
  from assms(12) have ne: "h \<noteq> []" by auto
  from assms have len: "nat A + nat (B - A + 1) \<le> length content" by simp
  have "getRecordingFile env d idStr h =
          (d, serveContent (serverFilePath env job (GuideName c)) content h)"
    using assms(1-6) by (rule getRecordingFile_served)
  with serveContent_partial [OF ne p] assms(7) len show ?thesis
    by simp
qed

text \<open>The theorem for \<open>bytes=2-5\<close> on the ten-byte file of the example.\<close>

theorem range_request_served_witness:
  "Atoi ''1'' = Some 1 \<and> \<not> queryFails exEnv
     \<and> findRecording 1 exDoneDB = Some (exJob\<lparr>Status := ''completed''\<rparr>)
     \<and> findChannel (ChannelID (exJob\<lparr>Status := ''completed''\<rparr>)) exDoneDB = Some exChannel
     \<and> fs exEnv (serverFilePath exEnv (exJob\<lparr>Status := ''completed''\<rparr>) (GuideName exChannel))
         = File ''0123456789''
     \<and> getRecordingFile exEnv exDoneDB ''1'' ''bytes=2-5'' =
         (exDoneDB, \<lparr>statusCode = 206,
            header = [(''Content-Range'', ''bytes 2-5/10''), (''Content-Length'', ''4''),
                      (''Accept-Ranges'', ''bytes'')],
            body = Bytes ''2345''\<rparr>)"
proof -
  have st: "Status (exJob\<lparr>Status := ''completed''\<rparr>) = ''completed''" by simp
  have h: "''bytes=2-5'' = ''bytes='' @ FormatInt 2 @ ''-'' @ FormatInt 5
         \<or> (''bytes=2-5'' = ''bytes='' @ FormatInt 2 @ ''-'' \<and> (5::int) = 10 - 1)"
    by (simp add: FormatInt_2_5)
  from range_request_served [where S = 10 and A = 2 and B = 5,
      OF Atoi_1 exEnv_flags(1) exDone_job exDone_channel st exDone_file _ _ _ _ _ h]
  have "getRecordingFile exEnv exDoneDB ''1'' ''bytes=2-5'' =
         (exDoneDB, \<lparr>statusCode = 206,
            header = [(''Content-Range'', ''bytes 2-5/10''), (''Content-Length'', ''4''),
                      (''Accept-Ranges'', ''bytes'')],
            body = Bytes ''2345''\<rparr>)"
    by (simp add: FormatInt_2_5)
  with Atoi_1 exEnv_flags(1) exDone_job exDone_channel exDone_file show ?thesis by simp
qed

subsection \<open>C7: which range headers are rejected\<close>

text \<open>
  C7, as the code has it. For a non-empty range header and a file of \<open>S\<close> bytes: the
  answer is 400 if and only if the header is none of \<open>bytes=A\<close>, \<open>bytes=A-\<close> and
  \<open>bytes=A-B\<close> with \<open>A\<close> and \<open>B\<close> decimal literals (an optional plus sign,
  digits, a value that fits 64 signed bits); it is 416 if and only if the header is of one
  of these forms and \<open>A > B\<close> or \<open>B \<ge> S\<close>, where \<open>B\<close> is \<open>S - 1\<close> in the
  first two forms; and it is 206 if and only if the header is of one of these forms and
  \<open>A \<le> B < S\<close>.
\<close>

theorem range_header_rejections:
  assumes "h \<noteq> []" and "S = int (length content)"
  shows "(statusCode (serveContent p content h) = 400) = (\<not> (\<exists>A B. rangeDenotes h S A B))
     \<and> (statusCode (serveContent p content h) = 416)
         = (\<exists>A B. rangeDenotes h S A B \<and> (A > B \<or> B \<ge> S))
     \<and> (statusCode (serveContent p content h) = 206)
         = (\<exists>A B. rangeDenotes h S A B \<and> A \<le> B \<and> B < S)"
proof (cases "parseRange h S = BadRequest")
  case True
  have "\<not> rangeDenotes h S A B" for A B
    using parseRange_denotes [of h S A B] True by (auto simp: classify_def split: if_splits)
  with True assms show ?thesis
    by (simp add: serveContent_status)
next
  case False
  from parseRange_accepts [OF False] obtain A B where den: "rangeDenotes h S A B" by blast
  have cl: "parseRange h S = classify A B S"
    using den by (rule parseRange_denotes)
  have uniq: "classify A' B' S = classify A B S" if "rangeDenotes h S A' B'" for A' B'
    using parseRange_denotes [OF that] cl by simp
  from den have dex: "\<exists>A B. rangeDenotes h S A B" by blast
  show ?thesis
  proof (cases "A > B \<or> B \<ge> S")
    case True
    have "\<not> (A' \<le> B' \<and> B' < S)" if "rangeDenotes h S A' B'" for A' B'
      using uniq [OF that] True by (auto simp: classify_def split: if_splits)
    then have nex: "\<not> (\<exists>A B. rangeDenotes h S A B \<and> A \<le> B \<and> B < S)" by blast
    from den True have ex: "\<exists>A B. rangeDenotes h S A B \<and> (A > B \<or> B \<ge> S)" by blast
    have "statusCode (serveContent p content h) = 416"
      using assms cl True by (simp add: serveContent_status classify_def)
    with dex ex nex show ?thesis by simp
  next
    case no: False
    then have ok: "A \<le> B \<and> B < S" by auto
    have "\<not> (A' > B' \<or> B' \<ge> S)" if "rangeDenotes h S A' B'" for A' B'
      using uniq [OF that] no by (auto simp: classify_def split: if_splits)
    then have nex: "\<not> (\<exists>A B. rangeDenotes h S A B \<and> (A > B \<or> B \<ge> S))" by blast
    from den ok have ex: "\<exists>A B. rangeDenotes h S A B \<and> A \<le> B \<and> B < S" by blast
    have "statusCode (serveContent p content h) = 206"
      using assms cl no by (simp add: serveContent_status classify_def)
    with dex ex nex show ?thesis by simp
  qed
qed

text \<open>
  The theorem at \<open>bytes=abc-10\<close>, which is answered 400 and denotes no range, and
  at \<open>bytes=5\<close>, which denotes the range from 5 to 9 of the ten-byte file.
\<close>

theorem range_header_rejections_witness:
  "''bytes=abc-10'' \<noteq> []
     \<and> statusCode (serveContent ''f'' ''0123456789'' ''bytes=abc-10'') = 400
     \<and> \<not> rangeDenotes ''bytes=abc-10'' 10 0 10
     \<and> ''bytes=5'' \<noteq> [] \<and> rangeDenotes ''bytes=5'' 10 5 9
     \<and> statusCode (serveContent ''f'' ''0123456789'' ''bytes=5'') = 206"
proof -
  have a: "statusCode (serveContent ''f'' ''0123456789'' ''bytes=abc-10'') = 400"
    by (simp add: serveContent_def parseRange_def ParseInt_def ParseUint_def isDigit_def
        httpError_def)
  have "intLit ''5'' \<and> intVal ''5'' = 5"
    by (simp add: intLit_def intVal_def stripPlus_def decimal_def isDigit_def)
  then have b: "rangeDenotes ''bytes=5'' 10 5 9"
    unfolding rangeDenotes_def by (intro disjI1 exI [of _ "''5''"]) simp
  from range_header_rejections [of "''bytes=abc-10''" 10 "''0123456789''" "''f''"] a
  have c: "\<not> rangeDenotes ''bytes=abc-10'' 10 0 10" by simp
  from b have e: "\<exists>A B. rangeDenotes ''bytes=5'' 10 A B \<and> A \<le> B \<and> B < 10"
    by (intro exI [of _ 5] exI [of _ 9]) simp
  have "''bytes=5'' \<noteq> []" and "(10::int) = int (length ''0123456789'')" by simp_all
  from range_header_rejections [OF this, of "''f''"] e
  have d: "statusCode (serveContent ''f'' ''0123456789'' ''bytes=5'') = 206" by blast
  from a b c d show ?thesis by simp
qed

text \<open>
  Against C7 as stated: the header \<open>bytes=5\<close> has no dash, so it is neither
  \<open>bytes=A-B\<close> nor \<open>bytes=A-\<close>, and it is answered 206 with the bytes 5 to 9.
\<close>

theorem range_without_dash_counterexample:
  "CHR ''-'' \<notin> set ''bytes=5''
     \<and> getRecordingFile exEnv exDoneDB ''1'' ''bytes=5'' =
         (exDoneDB, \<lparr>statusCode = 206,
            header = [(''Content-Range'', ''bytes 5-9/10''), (''Content-Length'', ''5''),
                      (''Accept-Ranges'', ''bytes'')],
            body = Bytes ''56789''\<rparr>)"
proof -
  have "parseRange ''bytes=5'' 10 = Partial 5 9"
    by (simp add: parseRange_def ParseInt_def ParseUint_def isDigit_def)
  then show ?thesis
    by (simp add: exDone_fetch serveContent_def FormatInt_def digits10.simps char_of_def)
qed

subsection \<open>C8: the error classes of the fetch operation\<close>

text \<open>
  Channels are only ever added, and a job is inserted only for a channel that is stored.
  So in every store the program reaches each job has its channel row, and the LEFT JOIN
  of the handler yields a channel name.
\<close>

lemma find_append_Some: "find P xs \<noteq> None \<Longrightarrow> find P (xs @ ys) \<noteq> None"
  by (induction xs) auto

lemma findChannel_insertChannels:
  "findChannel g d \<noteq> None \<Longrightarrow> findChannel g (insertChannels cs d) \<noteq> None"
proof (induction cs arbitrary: d)
  case Nil
  then show ?case by simp
next
  case (Cons c cs)
  have "findChannel g (d\<lparr>channels := channels d @ [c]\<rparr>) \<noteq> None"
    using Cons.prems by (simp add: findChannel_def find_append_Some)
  with Cons show ?case by simp
qed

lemma noDangling_loadChannels:
  assumes "noDangling d"
  shows "noDangling (loadChannels fetched d)"
proof (cases fetched)
  case None
  with assms show ?thesis by (simp add: loadChannels_def)
next
  case (Some cs)
  have "findChannel (ChannelID r) (insertChannels cs d) \<noteq> None"
    if "r \<in> set (recordings d)" for r
  proof (rule findChannel_insertChannels)
    from assms that show "findChannel (ChannelID r) d \<noteq> None"
      unfolding noDangling_def list_all_iff by blast
  qed
  with Some show ?thesis
    unfolding noDangling_def list_all_iff
    by (simp add: loadChannels_def recordings_insertChannels del: not_None_eq)
qed

lemma noDangling_setStatus: "noDangling d \<Longrightarrow> noDangling (setStatus j st d)"
  by (auto simp: noDangling_def setStatus_def list_all_iff findChannel_def)

lemma noDangling_startRecording: "noDangling d \<Longrightarrow> noDangling (fst (startRecording env d r))"
  using startRecording_db [of env d r] by (auto simp: noDangling_setStatus)

lemma noDangling_deleteRecording: "noDangling d \<Longrightarrow> noDangling (fst (deleteRecording env d m idStr))"
  by (auto simp: noDangling_def deleteRecording_def list_all_iff findChannel_def split: option.splits)

lemma noDangling_createRecording: "noDangling d \<Longrightarrow> noDangling (fst (createRecording env d m q))"
  by (cases q)
     (auto simp: noDangling_def createRecording_def Let_def list_all_iff findChannel_def)

lemma noDangling_step: "noDangling (db s) \<Longrightarrow> noDangling (db (step env ev s))"
proof (cases ev)
  case (Worker k)
  assume "noDangling (db s)"
  with Worker show ?thesis by (simp add: noDangling_startRecording)
qed (simp_all add: noDangling_loadChannels loadRecordings_db schedulerTick_def
      noDangling_createRecording noDangling_deleteRecording getRecordingFile_db)

lemma noDangling_run: "noDangling (db s) \<Longrightarrow> noDangling (db (run evs s))"
  by (induction evs arbitrary: s) (auto simp: noDangling_step)

lemma noDangling_initial: "noDangling (db initialState)"
  by (simp add: noDangling_def initialState_def)

lemma noDangling_channel:
  "noDangling d \<Longrightarrow> findRecording i d = Some job \<Longrightarrow> \<exists>c. findChannel (ChannelID job) d = Some c"
  by (auto simp: noDangling_def findRecording_def list_all_iff find_Some_iff)

text \<open>
  C8. In a store the program reaches, for a numeric job id and a query that succeeds, the
  fetch operation returns the store as it was, and it answers: 404 when no job has the
  id; 403 when the job's status is not \<open>completed\<close>; and, for a completed job, 404
  when the file derived from the job and its channel is missing on disk.
\<close>

theorem fetch_error_classes_reachable:
  assumes "d = db (run evs initialState)" and "Atoi idStr = Some i" and "\<not> queryFails env"
    and "getRecordingFile env d idStr h = (d', resp)"
  shows "d' = d
     \<and> (findRecording i d = None \<longrightarrow> resp = httpError ''Recording not found'' 404)
     \<and> (\<forall>job. findRecording i d = Some job \<and> Status job \<noteq> ''completed'' \<longrightarrow>
           resp = httpError ''Recording not completed'' 403)
     \<and> (\<forall>job. findRecording i d = Some job \<and> Status job = ''completed'' \<longrightarrow>
           (\<exists>c. findChannel (ChannelID job) d = Some c
              \<and> (fs env (serverFilePath env job (GuideName c)) = Absent \<longrightarrow>
                   resp = httpError ''Recording file not found'' 404)))
     \<and> statusCode (httpError ''Recording not found'' 404) = 404
     \<and> statusCode (httpError ''Recording not completed'' 403) = 403
     \<and> statusCode (httpError ''Recording file not found'' 404) = 404"
proof -
  from assms(1) have nd: "noDangling d"
    using noDangling_run [OF noDangling_initial, of evs] by simp
  from assms(4) getRecordingFile_db [of env d idStr h] have same: "d' = d" by simp
  have a: "resp = httpError ''Recording not found'' 404" if "findRecording i d = None"
    using that assms(2-4) by (simp add: getRecordingFile_def)
  have b: "resp = httpError ''Recording not completed'' 403"
    if "findRecording i d = Some job" "Status job \<noteq> ''completed''" for job
  proof -
    from noDangling_channel [OF nd that(1)] obtain c where "findChannel (ChannelID job) d = Some c"
      by blast
    with that assms(2-4) show ?thesis by (simp add: getRecordingFile_def)
  qed
  have c: "\<exists>c. findChannel (ChannelID job) d = Some c
              \<and> (fs env (serverFilePath env job (GuideName c)) = Absent \<longrightarrow>
                   resp = httpError ''Recording file not found'' 404)"
    if "findRecording i d = Some job" "Status job = ''completed''" for job
  proof -
    from noDangling_channel [OF nd that(1)] obtain c where c: "findChannel (ChannelID job) d = Some c"
      by blast
    have "resp = httpError ''Recording file not found'' 404"
      if "fs env (serverFilePath env job (GuideName c)) = Absent"
      using that \<open>findRecording i d = Some job\<close> \<open>Status job = ''completed''\<close> c assms(2-4)
      by (simp add: getRecordingFile_def)
    with c show ?thesis by blast
  qed
  from same a b c show ?thesis by (simp add: httpError_def)
qed

lemma exStarted_reachable:
  "exStarted = run [(exEnv, LoadChannels (Some [exChannel])),
                    (exEnv, Create ''POST'' (Some exRequest)),
                    (exEnv, Tick 1)] initialState"
  by (simp only: exStarted_def initialState_def exEmptyDB_def)

lemma exDone_reachable:
  "exDoneDB = db (run [(exEnv, LoadChannels (Some [exChannel])),
                    (exEnv, Create ''POST'' (Some exRequest)),
                    (exEnv, Tick 1), (exEnv, Worker 0)] initialState)"
proof -
  have "run [(exEnv, LoadChannels (Some [exChannel])), (exEnv, Create ''POST'' (Some exRequest)),
             (exEnv, Tick 1), (exEnv, Worker 0)] initialState
        = step exEnv (Worker 0) exStarted"
    by (simp only: exStarted_reachable run.simps)
  then show ?thesis
    by (simp add: exStarted_eq exWorker_clean)
qed

lemma Atoi_7: "Atoi ''7'' = Some 7"
  by (simp add: Atoi_def ParseInt_def ParseUint_def isDigit_def)

text \<open>
  The theorem at three fetches on reachable stores: an id that no job has, the pending
  example job, and the completed example job with no file on disk.
\<close>

theorem fetch_error_classes_reachable_witness:
  "db exStarted = db (run [(exEnv, LoadChannels (Some [exChannel])),
                    (exEnv, Create ''POST'' (Some exRequest)),
                    (exEnv, Tick 1)] initialState)
     \<and> Atoi ''7'' = Some 7 \<and> Atoi ''1'' = Some 1
     \<and> \<not> queryFails exEnv \<and> \<not> queryFails exNoFileEnv
     \<and> findRecording 7 (db exStarted) = None
     \<and> getRecordingFile exEnv (db exStarted) ''7'' [] = (db exStarted, httpError ''Recording not found'' 404)
     \<and> findRecording 1 (db exStarted) = Some exJob \<and> Status exJob \<noteq> ''completed''
     \<and> getRecordingFile exEnv (db exStarted) ''1'' [] = (db exStarted, httpError ''Recording not completed'' 403)
     \<and> findRecording 1 exDoneDB = Some (exJob\<lparr>Status := ''completed''\<rparr>)
     \<and> findChannel (ChannelID (exJob\<lparr>Status := ''completed''\<rparr>)) exDoneDB = Some exChannel
     \<and> fs exNoFileEnv (serverFilePath exNoFileEnv (exJob\<lparr>Status := ''completed''\<rparr>) (GuideName exChannel)) = Absent
     \<and> getRecordingFile exNoFileEnv exDoneDB ''1'' [] = (exDoneDB, httpError ''Recording file not found'' 404)"
proof -
  have r: "db exStarted = db (run [(exEnv, LoadChannels (Some [exChannel])),
                    (exEnv, Create ''POST'' (Some exRequest)),
                    (exEnv, Tick 1)] initialState)"
    using exStarted_reachable by simp
  have q: "\<not> queryFails exNoFileEnv" by (simp add: exNoFileEnv_def exEnv_def)
  have n: "findRecording 7 (db exStarted) = None"
    by (simp add: exStarted_eq findRecording_def exDB_def exJob_def)
  have j: "findRecording 1 (db exStarted) = Some exJob"
    by (simp add: exStarted_eq exDB_job)
  have p: "Status exJob \<noteq> ''completed''" by (simp add: exJob_def)
  have f: "fs exNoFileEnv (serverFilePath exNoFileEnv (exJob\<lparr>Status := ''completed''\<rparr>) (GuideName exChannel)) = Absent"
    by (simp add: exNoFileEnv_def)
  obtain d1 r1 where g1: "getRecordingFile exEnv (db exStarted) ''7'' [] = (d1, r1)" by fastforce
  obtain d2 r2 where g2: "getRecordingFile exEnv (db exStarted) ''1'' [] = (d2, r2)" by fastforce
  obtain d3 r3 where g3: "getRecordingFile exNoFileEnv exDoneDB ''1'' [] = (d3, r3)" by fastforce
  from fetch_error_classes_reachable [OF r Atoi_7 exEnv_flags(1) g1] n g1
  have a: "getRecordingFile exEnv (db exStarted) ''7'' [] = (db exStarted, httpError ''Recording not found'' 404)"
    by simp
  from fetch_error_classes_reachable [OF r Atoi_1 exEnv_flags(1) g2] j p g2
  have b: "getRecordingFile exEnv (db exStarted) ''1'' [] = (db exStarted, httpError ''Recording not completed'' 403)"
    by simp
  from fetch_error_classes_reachable [OF exDone_reachable Atoi_1 q g3] exDone_job exDone_channel f g3
  have c: "getRecordingFile exNoFileEnv exDoneDB ''1'' [] = (exDoneDB, httpError ''Recording file not found'' 404)"
    by auto
  from r Atoi_7 Atoi_1 exEnv_flags(1) q n a j p b exDone_job exDone_channel f c show ?thesis
    by (intro conjI)
qed

subsection \<open>C9: the worker and the server derive the same path\<close>

text \<open>
  C9. For a job whose channel row exists, the output file of the worker and the file
  path of the server (which reads the same row, whatever its status is by then) are the
  same string: \<open>filepath.Join\<close> of the storage directory and
  \<open>date-startTime-channelName-channelId.mp4\<close>. The worker passes that path to ffmpeg
  as its last argument, and the server answers a completed job with the file found
  there.
\<close>

theorem worker_and_server_paths_agree:
  assumes "findChannel (ChannelID r) d = Some ch"
  shows "workerOutputFile env r ch = serverFilePath env (r\<lparr>Status := st\<rparr>) (GuideName ch)
     \<and> workerOutputFile env r ch =
         filepath_Join [STORAGE_DIR env,
           Date r @ ''-'' @ StartTime r @ ''-'' @ GuideName ch @ ''-'' @ ChannelID r @ ''.mp4'']
     \<and> (\<not> queryFails env \<and> \<not> mkdirFails env \<and> \<not> createFails env \<longrightarrow>
          (\<exists>logFile argv. (snd (startRecording env d r) = RunOK logFile argv
                             \<or> snd (startRecording env d r) = RunFailed logFile argv)
             \<and> last argv = serverFilePath env (r\<lparr>Status := st\<rparr>) (GuideName ch)))
     \<and> (\<not> queryFails env \<and> Atoi idStr = Some (ID r)
          \<and> findRecording (ID r) d' = Some (r\<lparr>Status := ''completed''\<rparr>)
          \<and> findChannel (ChannelID r) d' = Some ch
          \<and> fs env (workerOutputFile env r ch) = File content \<longrightarrow>
          getRecordingFile env d' idStr h = (d', serveContent (workerOutputFile env r ch) content h))"
proof -
  from assms have g: "GuideNumber ch = ChannelID r"
    by (rule findChannel_GuideNumber)
  then have eq: "workerOutputFile env r ch = serverFilePath env (r\<lparr>Status := st\<rparr>) (GuideName ch)" for st
    by (simp add: workerOutputFile_def serverFilePath_def)
  have nm: "workerOutputFile env r ch =
         filepath_Join [STORAGE_DIR env,
           Date r @ ''-'' @ StartTime r @ ''-'' @ GuideName ch @ ''-'' @ ChannelID r @ ''.mp4'']"
    using g by (simp add: workerOutputFile_def fileName_def)
  have run: "\<exists>logFile argv. (snd (startRecording env d r) = RunOK logFile argv
                             \<or> snd (startRecording env d r) = RunFailed logFile argv)
             \<and> last argv = serverFilePath env (r\<lparr>Status := st\<rparr>) (GuideName ch)"
    if "\<not> queryFails env" "\<not> mkdirFails env" "\<not> createFails env"
    using that assms eq [of st] by (simp add: startRecording_def Let_def)
  have srv: "getRecordingFile env d' idStr h = (d', serveContent (workerOutputFile env r ch) content h)"
    if "\<not> queryFails env" "Atoi idStr = Some (ID r)"
      "findRecording (ID r) d' = Some (r\<lparr>Status := ''completed''\<rparr>)"
      "findChannel (ChannelID r) d' = Some ch"
      "fs env (workerOutputFile env r ch) = File content"
    using getRecordingFile_served [of idStr "ID r" env d' "r\<lparr>Status := ''completed''\<rparr>" ch content h]
      that eq [of "''completed''"] by simp
  from eq [of st] nm run srv show ?thesis by blast
qed

text \<open>The theorem at the example job: both paths are the file of the example.\<close>

theorem worker_and_server_paths_agree_witness:
  "findChannel (ChannelID exJob) exDB = Some exChannel
     \<and> workerOutputFile exEnv exJob exChannel = ''/data/2026-01-01-19:00-KQED-5.mp4''
     \<and> serverFilePath exEnv (exJob\<lparr>Status := ''completed''\<rparr>) (GuideName exChannel)
         = ''/data/2026-01-01-19:00-KQED-5.mp4''
     \<and> \<not> queryFails exEnv \<and> \<not> mkdirFails exEnv \<and> \<not> createFails exEnv
     \<and> Atoi ''1'' = Some (ID exJob)
     \<and> findRecording (ID exJob) exDoneDB = Some (exJob\<lparr>Status := ''completed''\<rparr>)
     \<and> findChannel (ChannelID exJob) exDoneDB = Some exChannel
     \<and> fs exEnv (workerOutputFile exEnv exJob exChannel) = File ''0123456789''
     \<and> getRecordingFile exEnv exDoneDB ''1'' [] =
         (exDoneDB, serveContent ''/data/2026-01-01-19:00-KQED-5.mp4'' ''0123456789'' [])"
proof -
  note t = worker_and_server_paths_agree [OF exDB_channel, of exEnv "''completed''" "''1''"
      exDoneDB "''0123456789''" "[]"]
  from t have "workerOutputFile exEnv exJob exChannel =
      serverFilePath exEnv (exJob\<lparr>Status := ''completed''\<rparr>) (GuideName exChannel)"
    by (rule conjunct1)
  then have p: "workerOutputFile exEnv exJob exChannel = ''/data/2026-01-01-19:00-KQED-5.mp4''"
    by (simp only: exServerPath)
  have s: "serverFilePath exEnv (exJob\<lparr>Status := ''completed''\<rparr>) (GuideName exChannel)
         = ''/data/2026-01-01-19:00-KQED-5.mp4''"
    by (rule exServerPath)
  have i: "Atoi ''1'' = Some (ID exJob)"
    using Atoi_1 by (simp add: exJob_def)
  have j: "findRecording (ID exJob) exDoneDB = Some (exJob\<lparr>Status := ''completed''\<rparr>)"
    using exDone_job by (simp add: exJob_def)
  have c: "findChannel (ChannelID exJob) exDoneDB = Some exChannel"
    using exDone_channel by simp
  have f: "fs exEnv (workerOutputFile exEnv exJob exChannel) = File ''0123456789''"
    unfolding p by (simp add: exEnv_def exFile_def)
  have g: "getRecordingFile exEnv exDoneDB ''1'' [] =
         (exDoneDB, serveContent ''/data/2026-01-01-19:00-KQED-5.mp4'' ''0123456789'' [])"
    by (rule exDone_fetch)
  from exDB_channel p s exEnv_flags(1,4,5) i j c f g show ?thesis
    by (intro conjI)
qed

subsection \<open>C10: what the create handler answers\<close>

lemma ID_le_foldr_max: "r \<in> set rs \<Longrightarrow> ID r \<le> foldr max (map ID rs) 0"
  by (induction rs) auto

lemma nextId_fresh: "findRecording (nextId d) d = None"
proof -
  have "ID r \<noteq> nextId d" if "r \<in> set (recordings d)" for r
    using ID_le_foldr_max [OF that] by (simp add: nextId_def)
  then show ?thesis
    by (auto simp: findRecording_def find_None_iff)
qed

text \<open>
  C10, as the code has it. For a POST whose body decodes, when the database calls
  succeed: the answer is 400 if and only if the duration is not positive; it is 404 if
  and only if the duration is positive and the channel id is not in the channels table
  (the duration is checked first); in both cases the database is unchanged. Otherwise,
  whatever the date and the start time are, one row is appended with status
  \<open>pending\<close> and an id that no stored row has, and the answer is 201 with that row.
\<close>

theorem create_request_outcomes:
  assumes "\<not> queryFails env" and "\<not> execFails env" and "\<not> lastIdFails env"
    and "createRecording env d ''POST'' (Some req) = (d', resp)"
    and "new = \<lparr>ID = nextId d, ChannelID = reqChannelID req, Date = reqDate req,
                 StartTime = reqStartTime req, Duration = reqDuration req,
                 Status = ''pending''\<rparr>"
  shows "(statusCode resp = 400) = (reqDuration req \<le> 0)
     \<and> (statusCode resp = 404) = (0 < reqDuration req \<and> findChannel (reqChannelID req) d = None)
     \<and> (statusCode resp = 400 \<or> statusCode resp = 404 \<longrightarrow> d' = d)
     \<and> (statusCode resp \<noteq> 400 \<and> statusCode resp \<noteq> 404 \<longrightarrow>
           d' = d\<lparr>recordings := recordings d @ [new], seq := nextId d\<rparr>
           \<and> findRecording (nextId d) d = None
           \<and> resp = \<lparr>statusCode = 201, header = [(''Content-Type'', ''application/json'')],
                      body = JsonRecording new\<rparr>)"
  using assms nextId_fresh [of d]
  by (auto simp: createRecording_def Let_def jsonError_def split: if_splits)

text \<open>The theorem at the request that creates the example job, and at a rejected one.\<close>

theorem create_request_outcomes_witness:
  "\<not> queryFails exEnv \<and> \<not> execFails exEnv \<and> \<not> lastIdFails exEnv
     \<and> createRecording exEnv \<lparr>channels = [exChannel], recordings = [], seq = 0\<rparr> ''POST''
           (Some exRequest)
         = (exDB, \<lparr>statusCode = 201, header = [(''Content-Type'', ''application/json'')],
                   body = JsonRecording exJob\<rparr>)
     \<and> createRecording exEnv exDB ''POST'' (Some exBadRequest)
         = (exDB, jsonError ''Duration must be positive'' 400)
     \<and> reqDuration exBadRequest \<le> 0"
proof -
  let ?d = "\<lparr>channels = [exChannel], recordings = [], seq = 0\<rparr>"
  have a: "createRecording exEnv ?d ''POST'' (Some exRequest)
         = (exDB, \<lparr>statusCode = 201, header = [(''Content-Type'', ''application/json'')],
                   body = JsonRecording exJob\<rparr>)"
    using exEnv_flags
    by (simp add: createRecording_def Let_def nextId_def findChannel_def exChannel_def
        exRequest_def exDB_def exJob_def)
  have b: "createRecording exEnv exDB ''POST'' (Some exBadRequest)
         = (exDB, jsonError ''Duration must be positive'' 400)"
    by (simp add: createRecording_def exBadRequest_def)
  from create_request_outcomes [OF exEnv_flags(1,2,3) b refl]
  have "reqDuration exBadRequest \<le> 0" by (simp add: jsonError_def)
  with a b exEnv_flags show ?thesis by simp
qed

text \<open>
  Against C10 as stated: the channel 99 is not in the channels table, and the request
  for it with duration 0 is answered 400, not 404.
\<close>

theorem create_unknown_channel_counterexample:
  "findChannel (reqChannelID exBadRequest) exDB = None
     \<and> statusCode (snd (createRecording exEnv exDB ''POST'' (Some exBadRequest))) = 400"
  by (simp add: createRecording_def exBadRequest_def jsonError_def findChannel_def exDB_def
      exChannel_def)

end
